theory Spec2Isabelle
  imports Complex_Main "HOL-Library.Sublist"
begin

section \<open>Strings\<close>

text \<open>
  Python strings are modelled as \<open>string\<close> (lists of characters) over ASCII text.
  \<open>str.lower()\<close> maps the 26 capital letters to their small counterparts and leaves every
  other character alone; \<open>sub in s\<close> on strings is the contiguous-substring test, which is
  \<open>sublist\<close> of the list library; \<open>s.startswith(p)\<close> is \<open>prefix\<close>.
\<close>

definition upper_letters :: string where
  "upper_letters = ''ABCDEFGHIJKLMNOPQRSTUVWXYZ''"

definition lower_letters :: string where
  "lower_letters = ''abcdefghijklmnopqrstuvwxyz''"

definition lower_char :: "char \<Rightarrow> char" where
  "lower_char c = (case map_of (zip upper_letters lower_letters) c of Some l \<Rightarrow> l | None \<Rightarrow> c)"

definition upper_char :: "char \<Rightarrow> char" where
  "upper_char c = (case map_of (zip lower_letters upper_letters) c of Some u \<Rightarrow> u | None \<Rightarrow> c)"

definition lower :: "string \<Rightarrow> string" where
  "lower s = map lower_char s"

definition is_cased :: "char \<Rightarrow> bool" where
  "is_cased c = (c \<in> set upper_letters \<or> c \<in> set lower_letters)"

text \<open>
  \<open>str.title()\<close>: a cased character that follows an uncased one (or starts the string) is
  capitalised, a cased character that follows a cased one is made small.
\<close>

fun title_from :: "bool \<Rightarrow> string \<Rightarrow> string" where
  "title_from prev [] = []"
| "title_from prev (c # cs) =
     (if is_cased c then (if prev then lower_char c else upper_char c) # title_from True cs
      else c # title_from False cs)"

definition title_case :: "string \<Rightarrow> string" where
  "title_case s = title_from False s"

text \<open>\<open>sep.join(parts)\<close>.\<close>

fun join :: "string \<Rightarrow> string list \<Rightarrow> string" where
  "join sep [] = []"
| "join sep [x] = x"
| "join sep (x # y # ys) = x @ sep @ join sep (y # ys)"

section \<open>The job record\<close>

text \<open>
  The dictionary every adapter builds. The two keys \<open>relevance_score\<close> and
  \<open>is_public_health\<close> are absent until \<open>filter_public_health_jobs\<close> stores them, hence
  optional. The score is a Python float; it is modelled as the exact rational, which is safe
  here because the only quotients that occur are \<open>k / 23\<close> with \<open>k \<le> 23\<close>, none of which is
  within \<open>0.004\<close> of the threshold \<open>0.2\<close> or of a rounding tie at two decimals.
\<close>

record job =
  title :: string
  organization :: string
  location :: string
  url :: string
  date_posted :: string
  source :: string
  scraped_at :: string
  search_term :: string
  is_recent :: bool
  relevance_score :: "rat option"
  is_public_health :: "bool option"

section \<open>Recency classifier\<close>

definition recent_indicators :: "string list" where
  "recent_indicators =
     [''hours ago'', ''hour ago'', ''today'', ''just now'', ''1 day ago'', ''yesterday'']"

text \<open>
  \<open>is_recent_job(date_text)\<close>: \<open>None\<close> and the empty string are falsy and give \<open>False\<close>;
  otherwise \<open>any(indicator in date_text_lower for indicator in recent_indicators)\<close>.
\<close>

fun is_recent_job :: "string option \<Rightarrow> bool" where
  "is_recent_job None = False"
| "is_recent_job (Some date_text) =
     (if date_text = [] then False
      else (let date_text_lower = lower date_text
            in list_ex (\<lambda>indicator. sublist indicator date_text_lower) recent_indicators))"

text \<open>
  What the specification calls a case-insensitive substring match: some contiguous piece of the
  text equals the phrase once both are lower-cased.
\<close>

definition ci_substring :: "string \<Rightarrow> string \<Rightarrow> bool" where
  "ci_substring phrase text = (\<exists>pre mid post. text = pre @ mid @ post \<and> lower mid = lower phrase)"

section \<open>The outside world\<close>

text \<open>
  What the three HTTP sources answer is an input of the model. A response is \<open>None\<close> when the
  request, the status check or the parsing raises inside the adapter's outer \<open>try\<close>.

  An item of the API's \<open>data\<close> list: \<open>item_id\<close> is \<open>item['id']\<close> as the f-string prints it
  (\<open>None\<close> when the key is absent, which raises \<open>KeyError\<close>); the other fields are the
  entries of \<open>item.get('fields', {})\<close>, a missing list being the empty list.
\<close>

record api_item =
  item_id :: "string option"
  field_title :: "string option"
  field_source :: "string option list"
  field_country :: "string option list"
  field_date_created :: "string option"

text \<open>An \<open><a></a>\<close> element: its stripped text and its \<open>href\<close> attribute, if it has one.\<close>

record html_link =
  link_text :: string
  link_href :: "string option"

text \<open>
  An \<open><article class="rw-river-article--job"></article>\<close> of the ReliefWeb result page, as the
  scraper looks at it: the first \<open>h3\<close> (\<open>None\<close> when there is none) with its first \<open>a\<close>, and
  the stripped texts of the first \<open>dd\<close>, country \<open>span\<close> and \<open>time\<close> elements.
\<close>

record rw_article =
  art_h3 :: "html_link option option"
  art_dd :: "string option"
  art_country :: "string option"
  art_time :: "string option"

text \<open>
  A candidate \<open>div\<close> of the Devex result page: the stripped texts of its first \<open>h3\<close> and
  \<open>h2\<close> and its first \<open>a\<close>.
\<close>

record devex_div =
  div_h3 :: "string option"
  div_h2 :: "string option"
  div_a :: "html_link option"

record world =
  bs_available :: bool
  api_response :: "string \<Rightarrow> nat \<Rightarrow> api_item list option"
  html_response :: "string \<Rightarrow> rw_article list option"
  devex_response :: "string \<Rightarrow> devex_div list option"
  clock :: string

text \<open>
  Every adapter invocation is recorded with the search term and the \<open>max_jobs\<close> argument it
  received, so that statements about which strategy ran, how often and with which cap can be
  made about a run.
\<close>

datatype call = ApiCall string nat | HtmlCall string nat | DevexCall string nat

section \<open>Source adapters (app.py)\<close>

text \<open>
  The body of the per-item \<open>try\<close> of \<open>scrape_reliefweb_api\<close>. The only statement that can
  raise on a well-typed item is \<open>item['id']\<close>; the \<open>except\<close> branch skips the item, which is
  the result \<open>None\<close>.
\<close>

definition api_job :: "world \<Rightarrow> string \<Rightarrow> api_item \<Rightarrow> job option" where
  "api_job w term item =
     (let org_name = (case field_source item of
                        [] \<Rightarrow> ''Unknown Organization''
                      | s # _ \<Rightarrow> (case s of None \<Rightarrow> ''Unknown Organization'' | Some n \<Rightarrow> n));
          locations = map (\<lambda>loc. case loc of None \<Rightarrow> [] | Some n \<Rightarrow> n) (field_country item);
          joined = join '', '' locations;
          location = (if joined = [] then ''Multiple Locations'' else joined);
          posted = (case field_date_created item of None \<Rightarrow> ''Unknown'' | Some d \<Rightarrow> d)
      in case item_id item of
           None \<Rightarrow> None
         | Some i \<Rightarrow>
             Some \<lparr> title = (case field_title item of None \<Rightarrow> ''No title'' | Some t \<Rightarrow> t),
                    organization = org_name,
                    location = location,
                    url = ''https://reliefweb.int/job/'' @ i,
                    date_posted = posted,
                    source = ''reliefweb'',
                    scraped_at = clock w,
                    search_term = term,
                    is_recent = is_recent_job (Some posted),
                    relevance_score = None,
                    is_public_health = None \<rparr>)"

text \<open>
  \<open>scrape_reliefweb_api(search_term, max_jobs=20)\<close>: the request carries \<open>limit = max_jobs\<close>,
  the answer is cut to \<open>[:max_jobs]\<close>, and any exception of the outer \<open>try\<close> returns \<open>[]\<close>.
\<close>

definition scrape_reliefweb_api :: "world \<Rightarrow> string \<Rightarrow> nat \<Rightarrow> job list \<times> call list" where
  "scrape_reliefweb_api w term max_jobs =
     ((case api_response w term max_jobs of
         None \<Rightarrow> []
       | Some data \<Rightarrow> List.map_filter (api_job w term) (take max_jobs data)),
      [ApiCall term max_jobs])"

text \<open>
  The per-article body of \<open>scrape_reliefweb_html\<close>: an article without \<open>h3\<close> or without a
  link in it is skipped; a link without \<open>href\<close> (or with an empty one) gives the empty url.
\<close>

definition html_job :: "world \<Rightarrow> string \<Rightarrow> rw_article \<Rightarrow> job option" where
  "html_job w term art =
     (let title_elem = (case art_h3 art of None \<Rightarrow> None | Some a \<Rightarrow> a)
      in case title_elem of
           None \<Rightarrow> None
         | Some a \<Rightarrow>
             (let url_path = (case link_href a of None \<Rightarrow> [] | Some p \<Rightarrow> p);
                  posted = (case art_time art of None \<Rightarrow> ''Unknown'' | Some d \<Rightarrow> d)
              in Some \<lparr> title = link_text a,
                        organization =
                          (case art_dd art of None \<Rightarrow> ''Unknown Organization'' | Some t \<Rightarrow> t),
                        location =
                          (case art_country art of None \<Rightarrow> ''Multiple Locations'' | Some t \<Rightarrow> t),
                        url = (if url_path \<noteq> [] then ''https://reliefweb.int'' @ url_path else []),
                        date_posted = posted,
                        source = ''reliefweb'',
                        scraped_at = clock w,
                        search_term = term,
                        is_recent = is_recent_job (Some posted),
                        relevance_score = None,
                        is_public_health = None \<rparr>))"

definition scrape_reliefweb_html :: "world \<Rightarrow> string \<Rightarrow> nat \<Rightarrow> job list \<times> call list" where
  "scrape_reliefweb_html w term max_jobs =
     ((if \<not> bs_available w then []
       else case html_response w term of
              None \<Rightarrow> []
            | Some job_elements \<Rightarrow> List.map_filter (html_job w term) (take max_jobs job_elements)),
      [HtmlCall term max_jobs])"

text \<open>
  The per-candidate body of \<open>scrape_devex\<close>: the title is taken from the first of \<open>h3\<close>,
  \<open>h2\<close>, \<open>a\<close> that exists; titles shorter than 5 characters are skipped; a relative link is
  prefixed with the site, a missing link gives the empty url.
\<close>

definition devex_job :: "world \<Rightarrow> string \<Rightarrow> devex_div \<Rightarrow> job option" where
  "devex_job w term el =
     (let title_elem = (case div_h3 el of
                          Some t \<Rightarrow> Some t
                        | None \<Rightarrow> (case div_h2 el of
                                     Some t \<Rightarrow> Some t
                                   | None \<Rightarrow> map_option link_text (div_a el)))
      in case title_elem of
           None \<Rightarrow> None
         | Some t \<Rightarrow>
             if length t < 5 then None
             else
               (let u = (case div_a el of
                           None \<Rightarrow> []
                         | Some a \<Rightarrow> (case link_href a of None \<Rightarrow> [] | Some h \<Rightarrow> h));
                    u' = (if u \<noteq> [] \<and> \<not> prefix ''http'' u then ''https://www.devex.com'' @ u else u)
                in Some \<lparr> title = t,
                          organization = ''Development Organization'',
                          location = ''Global'',
                          url = u',
                          date_posted = ''Recent'',
                          source = ''devex'',
                          scraped_at = clock w,
                          search_term = term,
                          is_recent = True,
                          relevance_score = None,
                          is_public_health = None \<rparr>))"

definition scrape_devex :: "world \<Rightarrow> string \<Rightarrow> nat \<Rightarrow> job list \<times> call list" where
  "scrape_devex w term max_jobs =
     ((if \<not> bs_available w then []
       else case devex_response w term of
              None \<Rightarrow> []
            | Some job_elements \<Rightarrow> List.map_filter (devex_job w term) (take max_jobs job_elements)),
      [DevexCall term max_jobs])"

text \<open>
  \<open>scrape_development_sites(search_term, sites)\<close>. The body of its loop, for one site:
  the jobs it appends to \<open>all_jobs\<close> and the adapter calls it makes. The adapters are
  called without a \<open>max_jobs\<close> argument, that is with their defaults 20, 15 and 15. A
  site that is not handled (\<open>continue\<close>) appends nothing.
\<close>

definition scrape_site :: "world \<Rightarrow> string \<Rightarrow> string \<Rightarrow> job list \<times> call list" where
  "scrape_site w term site =
     (if site = ''reliefweb'' then
        (let (jobs, c1) = scrape_reliefweb_api w term 20;
             (jobs', c2) = (if jobs = [] then scrape_reliefweb_html w term 15 else (jobs, []))
         in (jobs', c1 @ c2))
      else if site = ''devex'' \<and> bs_available w then scrape_devex w term 15
      else ([], []))"

text \<open>The loop over the sites with its two accumulators, the job list and the record of calls.\<close>

fun sites_loop :: "world \<Rightarrow> string \<Rightarrow> string list \<Rightarrow> job list \<Rightarrow> call list \<Rightarrow> job list \<times> call list" where
  "sites_loop w term [] all_jobs calls = (all_jobs, calls)"
| "sites_loop w term (site # rest) all_jobs calls =
     (let (jobs, c) = scrape_site w term site
      in sites_loop w term rest (all_jobs @ jobs) (calls @ c))"

definition scrape_development_sites :: "world \<Rightarrow> string \<Rightarrow> string list option \<Rightarrow> job list \<times> call list" where
  "scrape_development_sites w term sites =
     sites_loop w term (case sites of None \<Rightarrow> [''reliefweb''] | Some s \<Rightarrow> s) [] []"

section \<open>Source adapters (app2.py)\<close>

text \<open>
  The second file has no HTML strategies. Its API adapter differs in the outer \<open>except\<close>
  branch only, which returns three canned records instead of the empty list.
\<close>

definition get_mock_jobs :: "world \<Rightarrow> string \<Rightarrow> job list" where
  "get_mock_jobs w term =
     [ \<lparr> title = ''Public Health M&E Officer - '' @ title_case term,
         organization = ''World Health Organization'',
         location = ''Geneva, Switzerland'',
         url = ''https://reliefweb.int/job/example1'',
         date_posted = ''2 hours ago'',
         source = ''reliefweb'',
         scraped_at = clock w,
         search_term = term,
         is_recent = True,
         relevance_score = None,
         is_public_health = None \<rparr>,
       \<lparr> title = ''Monitoring & Evaluation Specialist - '' @ title_case term,
         organization = ''UNICEF'',
         location = ''Multiple Locations'',
         url = ''https://reliefweb.int/job/example2'',
         date_posted = ''1 day ago'',
         source = ''reliefweb'',
         scraped_at = clock w,
         search_term = term,
         is_recent = True,
         relevance_score = None,
         is_public_health = None \<rparr>,
       \<lparr> title = ''Health Data Analyst - '' @ title_case term,
         organization = ''International Rescue Committee'',
         location = ''New York, USA'',
         url = ''https://reliefweb.int/job/example3'',
         date_posted = ''3 days ago'',
         source = ''reliefweb'',
         scraped_at = clock w,
         search_term = term,
         is_recent = False,
         relevance_score = None,
         is_public_health = None \<rparr> ]"

definition scrape_reliefweb_api2 :: "world \<Rightarrow> string \<Rightarrow> nat \<Rightarrow> job list \<times> call list" where
  "scrape_reliefweb_api2 w term max_jobs =
     ((case api_response w term max_jobs of
         None \<Rightarrow> get_mock_jobs w term
       | Some data \<Rightarrow> List.map_filter (api_job w term) (take max_jobs data)),
      [ApiCall term max_jobs])"

definition scrape_site2 :: "world \<Rightarrow> string \<Rightarrow> string \<Rightarrow> job list \<times> call list" where
  "scrape_site2 w term site =
     (if site = ''reliefweb'' then scrape_reliefweb_api2 w term 20 else ([], []))"

fun sites_loop2 :: "world \<Rightarrow> string \<Rightarrow> string list \<Rightarrow> job list \<Rightarrow> call list \<Rightarrow> job list \<times> call list" where
  "sites_loop2 w term [] all_jobs calls = (all_jobs, calls)"
| "sites_loop2 w term (site # rest) all_jobs calls =
     (let (jobs, c) = scrape_site2 w term site
      in sites_loop2 w term rest (all_jobs @ jobs) (calls @ c))"

definition scrape_development_sites2 :: "world \<Rightarrow> string \<Rightarrow> string list option \<Rightarrow> job list \<times> call list" where
  "scrape_development_sites2 w term sites =
     sites_loop2 w term (case sites of None \<Rightarrow> [''reliefweb''] | Some s \<Rightarrow> s) [] []"

section \<open>Relevance scorer\<close>

definition public_health_keywords :: "string list" where
  "public_health_keywords =
     [''public health'', ''monitoring'', ''evaluation'', ''m&e'', ''data'',
      ''health'', ''strategic information'', ''commcare'', ''dhis2'',
      ''survey'', ''research'', ''impact assessment'', ''health program'',
      ''global health'', ''health systems'', ''epidemiology'', ''health'',
      ''maternal'', ''child health'', ''hiv'', ''tb'', ''malaria'', ''nutrition'']"

text \<open>\<open>f"{job['title']} {job.get('organization', '')}".lower()\<close>\<close>

definition job_text :: "job \<Rightarrow> string" where
  "job_text j = lower (title j @ '' '' @ organization j)"

text \<open>\<open>sum(1 for keyword in public_health_keywords if keyword in job_text)\<close>\<close>

definition keyword_matches :: "string \<Rightarrow> nat" where
  "keyword_matches text = sum_list [1. keyword \<leftarrow> public_health_keywords, sublist keyword text]"

text \<open>\<open>matches / len(public_health_keywords)\<close>\<close>

definition raw_score :: "job \<Rightarrow> rat" where
  "raw_score j = of_nat (keyword_matches (job_text j)) / of_nat (length public_health_keywords)"

text \<open>
  \<open>round(x, 2)\<close>: the nearest multiple of \<open>1/100\<close>, a tie going to the even neighbour.
\<close>

definition py_round2 :: "rat \<Rightarrow> rat" where
  "py_round2 x =
     (let y = x * 100; n = \<lfloor>y\<rfloor>; d = y - of_int n
      in if d < 1/2 then of_int n / 100
         else if 1/2 < d then of_int (n + 1) / 100
         else if even n then of_int n / 100
         else of_int (n + 1) / 100)"

text \<open>
  The job dictionaries are objects that the caller's list and the returned list share, and
  the scorer writes into them. They live in a heap, a list of records addressed by position;
  a list of jobs is a list of addresses.
\<close>

type_synonym heap = "job list"

type_synonym ref = nat

text \<open>
  \<open>filter_public_health_jobs(jobs)\<close>: the loop over \<open>jobs\<close> with the heap and the list
  \<open>filtered_jobs\<close> as its state. Both branches store the two keys; only the first appends.
\<close>

fun filter_loop :: "ref list \<Rightarrow> heap \<Rightarrow> ref list \<Rightarrow> heap \<times> ref list" where
  "filter_loop [] h filtered_jobs = (h, filtered_jobs)"
| "filter_loop (r # rs) h filtered_jobs =
     (let job = h ! r;
          relevance_score = raw_score job
      in if 1/5 \<le> relevance_score then
           filter_loop rs
             (h[r := job\<lparr>relevance_score := Some (py_round2 relevance_score),
                         is_public_health := Some True\<rparr>])
             (filtered_jobs @ [r])
         else
           filter_loop rs
             (h[r := job\<lparr>relevance_score := Some (py_round2 relevance_score),
                         is_public_health := Some False\<rparr>])
             filtered_jobs)"

definition filter_public_health_jobs :: "heap \<Rightarrow> ref list \<Rightarrow> heap \<times> ref list" where
  "filter_public_health_jobs h jobs = filter_loop jobs h []"

text \<open>The dictionary that one pass of the loop body leaves behind.\<close>

definition scored :: "job \<Rightarrow> job" where
  "scored j = j\<lparr>relevance_score := Some (py_round2 (raw_score j)),
               is_public_health := Some (1/5 \<le> raw_score j)\<rparr>"

text \<open>
  The score as the specification words it: the match count (counted along the vocabulary list,
  so with repetitions) over the number of distinct vocabulary entries, rounded.
\<close>

definition spec_relevance_score :: "job \<Rightarrow> rat" where
  "spec_relevance_score j =
     py_round2 (of_nat (length (filter (\<lambda>k. ci_substring k (title j @ '' '' @ organization j))
                                 public_health_keywords))
                / of_nat (card (set public_health_keywords)))"

section \<open>Aggregation (main)\<close>

text \<open>
  What the sidebar hands to the run: the selected search terms, the selected sites and the
  slider value \<open>max_jobs_per_search\<close>.
\<close>

record config =
  search_terms :: "string list"
  sites :: "string list"
  max_jobs_per_search :: nat

datatype config_error = NoSearchTerm | NoWebsite

text \<open>The dictionaries an adapter returns are new objects: they are put at the end of the heap.\<close>

definition alloc :: "heap \<Rightarrow> job list \<Rightarrow> heap \<times> ref list" where
  "alloc h js = (h @ js, [length h ..< length h + length js])"

text \<open>
  The loop over the search terms. Its state is the heap, the list \<open>all_jobs\<close> and the record
  of adapter calls. The two files differ only in the scraper they call, which is the
  parameter \<open>scrape\<close>. Nothing in the body of the \<open>try\<close> raises in this model, so the
  \<open>except\<close> branch has no counterpart.
\<close>

fun search_loop ::
  "(string \<Rightarrow> string list option \<Rightarrow> job list \<times> call list) \<Rightarrow> string list \<Rightarrow> string list \<Rightarrow>
   heap \<Rightarrow> ref list \<Rightarrow> call list \<Rightarrow> heap \<times> ref list \<times> call list" where
  "search_loop scrape [] sts h all_jobs calls = (h, all_jobs, calls)"
| "search_loop scrape (term # terms) sts h all_jobs calls =
     (let (jobs, c) = scrape term (Some sts);
          (h1, refs) = alloc h jobs;
          (h2, filtered_jobs) = filter_public_health_jobs h1 refs
      in search_loop scrape terms sts h2 (all_jobs @ filtered_jobs) (calls @ c))"

text \<open>The duplicate removal: \<open>seen_urls\<close> is a set, \<open>unique_jobs\<close> a list.\<close>

fun unique_loop :: "job list \<Rightarrow> string set \<Rightarrow> job list \<Rightarrow> job list" where
  "unique_loop [] seen_urls unique_jobs = unique_jobs"
| "unique_loop (j # js) seen_urls unique_jobs =
     (if url j \<notin> seen_urls then unique_loop js (insert (url j) seen_urls) (unique_jobs @ [j])
      else unique_loop js seen_urls unique_jobs)"

text \<open>
  The body of \<open>if run_scraper:\<close>. The first component of the result is the error shown
  when the run is refused (\<open>st.error\<close> and \<open>return\<close>), or the list handed to
  \<open>display_results\<close>; the second is the record of the adapter calls made during the run,
  which is empty when the function returns before the loop over the search terms.
\<close>

definition main_body ::
  "(string \<Rightarrow> string list option \<Rightarrow> job list \<times> call list) \<Rightarrow> config \<Rightarrow>
   (config_error + job list) \<times> call list" where
  "main_body scrape cfg =
     (if search_terms cfg = [] then (Inl NoSearchTerm, [])
      else if sites cfg = [] then (Inl NoWebsite, [])
      else (let (h, all_jobs, calls) = search_loop scrape (search_terms cfg) (sites cfg) [] [] []
            in (Inr (unique_loop (map (\<lambda>r. h ! r) all_jobs) {} []), calls)))"

definition main :: "world \<Rightarrow> config \<Rightarrow> (config_error + job list) \<times> call list" where
  "main w cfg = main_body (scrape_development_sites w) cfg"

definition main2 :: "world \<Rightarrow> config \<Rightarrow> (config_error + job list) \<times> call list" where
  "main2 w cfg = main_body (scrape_development_sites2 w) cfg"

text \<open>
  The records that \<open>all_jobs\<close> holds when the loop over the search terms has ended, in
  the order in which they were appended.
\<close>

definition accumulated ::
  "(string \<Rightarrow> string list option \<Rightarrow> job list \<times> call list) \<Rightarrow> config \<Rightarrow> job list" where
  "accumulated scrape cfg =
     (let (h, all_jobs, calls) = search_loop scrape (search_terms cfg) (sites cfg) [] [] []
      in map (\<lambda>r. h ! r) all_jobs)"

section \<open>Example inputs\<close>

text \<open>A posting whose text mentions "public health" and "data", and "health" in it.\<close>

definition example_job :: job where
  "example_job =
     \<lparr> title = ''Public Health Data'',
       organization = '''',
       location = ''Global'',
       url = ''https://reliefweb.int/job/1'',
       date_posted = ''Unknown'',
       source = ''reliefweb'',
       scraped_at = ''2024-01-01T00:00:00'',
       search_term = ''health data'',
       is_recent = False,
       relevance_score = None,
       is_public_health = None \<rparr>"

text \<open>
  A world in which the API answers with no items, the ReliefWeb page has one article whose
  title link carries no \<open>href\<close>, and the Devex page has one candidate without any link.
\<close>

definition link_missing_world :: world where
  "link_missing_world =
     \<lparr> bs_available = True,
       api_response = (\<lambda>term limit. Some []),
       html_response = (\<lambda>term.
         Some [\<lparr> art_h3 = Some (Some \<lparr> link_text = ''Public Health Nurse'', link_href = None \<rparr>),
                 art_dd = None, art_country = None, art_time = None \<rparr>]),
       devex_response = (\<lambda>term.
         Some [\<lparr> div_h3 = Some ''Health Data Officer'', div_h2 = None, div_a = None \<rparr>]),
       clock = ''2024-01-01T00:00:00'' \<rparr>"


text \<open>
  A world in which the API answers every query with the same two postings, a driver's job and
  a monitoring and evaluation job.
\<close>

definition two_postings_world :: world where
  "two_postings_world =
     \<lparr> bs_available = True,
       api_response = (\<lambda>term limit.
         Some [\<lparr> item_id = Some ''1'', field_title = Some ''Driver'',
                 field_source = [Some ''Logistics Ltd''], field_country = [Some ''Kenya''],
                 field_date_created = Some ''2024-01-01'' \<rparr>,
               \<lparr> item_id = Some ''2'',
                 field_title = Some ''Public Health Monitoring and Evaluation Data Officer'',
                 field_source = [Some ''WHO''], field_country = [],
                 field_date_created = None \<rparr>]),
       html_response = (\<lambda>term. None),
       devex_response = (\<lambda>term. None),
       clock = ''2024-01-01T00:00:00'' \<rparr>"

definition example_config :: config where
  "example_config =
     \<lparr> search_terms = [''public health'', ''health data''],
       sites = [''reliefweb''],
       max_jobs_per_search = 15 \<rparr>"

text \<open>
  The monitoring and evaluation posting of \<open>two_postings_world\<close> as a run returns it for a
  search term: 6 of the 23 vocabulary entries occur in its text, so its score is 0.26.
\<close>

definition who_posting :: "string \<Rightarrow> job" where
  "who_posting term =
     \<lparr> title = ''Public Health Monitoring and Evaluation Data Officer'',
       organization = ''WHO'',
       location = ''Multiple Locations'',
       url = ''https://reliefweb.int/job/2'',
       date_posted = ''Unknown'',
       source = ''reliefweb'',
       scraped_at = ''2024-01-01T00:00:00'',
       search_term = term,
       is_recent = False,
       relevance_score = Some (13/50),
       is_public_health = Some True \<rparr>"

section \<open>Facts about strings\<close>

lemma lower_append: "lower (xs @ ys) = lower xs @ lower ys"
  by (simp add: lower_def)

lemma lower_letters_fixed:
  "\<forall>l\<in>set lower_letters. map_of (zip upper_letters lower_letters) l = None"
  by code_simp

lemma lower_char_idem: "lower_char (lower_char c) = lower_char c"
proof (cases "map_of (zip upper_letters lower_letters) c")
  case None
  then show ?thesis by (simp add: lower_char_def)
next
  case (Some l)
  then have "l \<in> set lower_letters"
    by (meson in_set_zipE map_of_SomeD)
  then have "map_of (zip upper_letters lower_letters) l = None"
    using lower_letters_fixed by blast
  with Some show ?thesis by (simp add: lower_char_def)
qed

lemma lower_idem: "lower (lower s) = lower s"
  by (simp add: lower_def lower_char_idem)

text \<open>
  Looking for a lower-cased phrase in the lower-cased text is the case-insensitive substring
  match.
\<close>

lemma sublist_lower_iff: "sublist (lower p) (lower t) = ci_substring p t"
proof
  assume "sublist (lower p) (lower t)"
  then obtain ps ss where e: "lower t = ps @ lower p @ ss"
    by (auto simp: sublist_def)
  define a where "a = length ps"
  define b where "b = length p"
  have t: "t = take a t @ take b (drop a t) @ drop b (drop a t)"
    by (simp only: append_take_drop_id)
  have "lower (take b (drop a t)) = take b (drop a (lower t))"
    by (simp add: lower_def take_map drop_map)
  also have "\<dots> = lower p"
    using e by (simp add: a_def b_def lower_def)
  finally show "ci_substring p t"
    unfolding ci_substring_def using t by blast
next
  assume "ci_substring p t"
  then obtain pre mid post where "t = pre @ mid @ post" "lower mid = lower p"
    by (auto simp: ci_substring_def)
  then have "lower t = lower pre @ lower p @ lower post"
    by (simp add: lower_append)
  then show "sublist (lower p) (lower t)"
    by (auto simp: sublist_def)
qed

lemma lower_indicators: "\<forall>p\<in>set recent_indicators. lower p = p"
  by code_simp

lemma lower_keywords: "\<forall>p\<in>set public_health_keywords. lower p = p"
  by code_simp

lemma sublist_indicator_iff:
  "p \<in> set recent_indicators \<Longrightarrow> sublist p (lower t) = ci_substring p t"
  using sublist_lower_iff[of p t] lower_indicators by simp

lemma sublist_keyword_iff:
  "p \<in> set public_health_keywords \<Longrightarrow> sublist p (lower t) = ci_substring p t"
  using sublist_lower_iff[of p t] lower_keywords by simp

section \<open>Recency classifier: results\<close>

text \<open>
  Claim C5. The recency classifier returns false for null and for empty input, and for every
  non-empty \<open>date_text\<close> it returns true exactly when one of the six phrases "hours ago",
  "hour ago", "today", "just now", "1 day ago", "yesterday" occurs in \<open>date_text\<close> as a
  case-insensitive substring.
\<close>

theorem is_recent_job_spec:
  "is_recent_job None = False \<and> is_recent_job (Some []) = False \<and>
   (date_text \<noteq> [] \<longrightarrow>
      is_recent_job (Some date_text) =
        (ci_substring ''hours ago'' date_text \<or> ci_substring ''hour ago'' date_text \<or>
         ci_substring ''today'' date_text \<or> ci_substring ''just now'' date_text \<or>
         ci_substring ''1 day ago'' date_text \<or> ci_substring ''yesterday'' date_text))"
proof -
  have "\<And>p. p \<in> set recent_indicators \<Longrightarrow> sublist p (lower date_text) = ci_substring p date_text"
    by (rule sublist_indicator_iff)
  then show ?thesis
    by (simp add: list_ex_iff Let_def recent_indicators_def)
qed

theorem is_recent_job_spec_witness:
  "''2 Hours Ago'' \<noteq> [] \<and> is_recent_job (Some ''2 Hours Ago'') \<and>
   (ci_substring ''hours ago'' ''2 Hours Ago'' \<or> ci_substring ''hour ago'' ''2 Hours Ago'' \<or>
    ci_substring ''today'' ''2 Hours Ago'' \<or> ci_substring ''just now'' ''2 Hours Ago'' \<or>
    ci_substring ''1 day ago'' ''2 Hours Ago'' \<or> ci_substring ''yesterday'' ''2 Hours Ago'') \<and>
   \<not> is_recent_job (Some ''3 days ago'')"
proof -
  have ne: "''2 Hours Ago'' \<noteq> []" by simp
  have r: "is_recent_job (Some ''2 Hours Ago'')" by code_simp
  have n: "\<not> is_recent_job (Some ''3 days ago'')" by code_simp
  from is_recent_job_spec[of "''2 Hours Ago''"] ne r n show ?thesis by blast
qed

section \<open>Relevance scorer: auxiliary facts\<close>

lemma keywords_length: "length public_health_keywords = 23"
  by (simp add: public_health_keywords_def)

lemma keywords_card: "card (set public_health_keywords) = 22"
  by code_simp

lemma sum_ones_filter:
  "sum_list (concat (map (\<lambda>k. if P k then [1::nat] else []) xs)) = length (filter P xs)"
  by (induction xs) auto

lemma keyword_matches_length:
  "keyword_matches text = length (filter (\<lambda>k. sublist k text) public_health_keywords)"
  unfolding keyword_matches_def by (rule sum_ones_filter)

lemma keyword_matches_le: "keyword_matches text \<le> 23"
  using length_filter_le[of "\<lambda>k. sublist k text" public_health_keywords]
  by (simp add: keyword_matches_length keywords_length)

lemma score_table:
  "\<forall>k\<in>set [0..<24].
     0 \<le> py_round2 (of_nat k / 23) \<and> py_round2 (of_nat k / 23) \<le> 1 \<and>
     (1/5 \<le> py_round2 (of_nat k / 23)) = (1/5 \<le> (of_nat k / 23 :: rat))"
  by code_simp

lemma raw_score_eq: "raw_score j = of_nat (keyword_matches (job_text j)) / 23"
  by (simp add: raw_score_def keywords_length)

lemma score_bounds:
  "0 \<le> py_round2 (raw_score j) \<and> py_round2 (raw_score j) \<le> 1 \<and>
   (1/5 \<le> py_round2 (raw_score j)) = (1/5 \<le> raw_score j)"
proof -
  have "keyword_matches (job_text j) \<in> set [0..<24]"
    using keyword_matches_le[of "job_text j"] by simp
  then show ?thesis
    using score_table unfolding raw_score_eq by blast
qed

lemma job_text_scored: "job_text (scored j) = job_text j"
  by (simp add: job_text_def scored_def)

lemma raw_score_scored: "raw_score (scored j) = raw_score j"
  by (simp add: raw_score_def job_text_scored)

lemma scored_idem: "scored (scored j) = scored j"
proof -
  have "scored (scored j) =
      (scored j)\<lparr>relevance_score := Some (py_round2 (raw_score j)),
                 is_public_health := Some (1/5 \<le> raw_score j)\<rparr>"
    by (subst scored_def) (simp only: raw_score_scored)
  also have "\<dots> = scored j"
    by (simp add: scored_def)
  finally show ?thesis .
qed

lemma filter_loop_step:
  "filter_loop (r # rs) h acc =
     filter_loop rs (h[r := scored (h ! r)]) (if 1/5 \<le> raw_score (h ! r) then acc @ [r] else acc)"
  by (simp add: scored_def Let_def)

lemma filter_loop_char:
  "\<forall>r\<in>set rs. r < length h \<Longrightarrow>
   filter_loop rs h acc =
     (map (\<lambda>i. if i \<in> set rs then scored (h ! i) else h ! i) [0..<length h],
      acc @ filter (\<lambda>r. 1/5 \<le> raw_score (h ! r)) rs)"
proof (induction rs arbitrary: h acc)
  case Nil
  show ?case by (simp add: map_nth)
next
  case (Cons r rs)
  let ?h1 = "h[r := scored (h ! r)]"
  have live: "\<forall>x\<in>set rs. x < length ?h1" using Cons.prems by simp
  have r: "r < length h" using Cons.prems by simp
  have raw: "raw_score (?h1 ! x) = raw_score (h ! x)" if "x < length h" for x
    using that by (cases "x = r") (simp_all add: raw_score_scored)
  have heap: "(if i \<in> set rs then scored (?h1 ! i) else ?h1 ! i) =
      (if i \<in> set (r # rs) then scored (h ! i) else h ! i)" if "i < length h" for i
    using that by (cases "i = r") (simp_all add: scored_idem)
  have flt: "filter (\<lambda>x. 1/5 \<le> raw_score (?h1 ! x)) rs = filter (\<lambda>x. 1/5 \<le> raw_score (h ! x)) rs"
    by (rule filter_cong[OF refl]) (use Cons.prems raw in auto)
  show ?case
    unfolding filter_loop_step Cons.IH[OF live] flt
    using heap by (auto simp: r)
qed

lemma filter_public_health_jobs_char:
  "\<forall>r\<in>set jobs. r < length h \<Longrightarrow>
   filter_public_health_jobs h jobs =
     (map (\<lambda>i. if i \<in> set jobs then scored (h ! i) else h ! i) [0..<length h],
      filter (\<lambda>r. 1/5 \<le> raw_score (h ! r)) jobs)"
  unfolding filter_public_health_jobs_def by (simp add: filter_loop_char)

lemma filter_heap_nth:
  assumes "\<forall>r\<in>set jobs. r < length h" "i < length h"
  shows "fst (filter_public_health_jobs h jobs) ! i =
         (if i \<in> set jobs then scored (h ! i) else h ! i)"
  using assms by (simp add: filter_public_health_jobs_char)

lemma keyword_matches_ci:
  "keyword_matches (lower t) = length (filter (\<lambda>k. ci_substring k t) public_health_keywords)"
proof -
  have "filter (\<lambda>k. sublist k (lower t)) public_health_keywords =
        filter (\<lambda>k. ci_substring k t) public_health_keywords"
    by (rule filter_cong[OF refl]) (simp add: sublist_keyword_iff)
  then show ?thesis by (simp add: keyword_matches_length)
qed

lemma example_raw_score: "raw_score example_job = 4/23"
  by code_simp

lemma round_4_23: "py_round2 (4/23) = 17/100"
  by code_simp

lemma round_4_22: "py_round2 (4/22) = 18/100"
  by code_simp

lemma example_filter:
  "filter_public_health_jobs [example_job] [0] =
     ([example_job\<lparr>relevance_score := Some (17/100), is_public_health := Some False\<rparr>], [])"
  by (simp add: filter_public_health_jobs_def example_raw_score round_4_23)

section \<open>Relevance scorer: results\<close>

text \<open>
  Claim C4. Every record that passes through the relevance scorer gets a stored
  \<open>relevance_score\<close> between 0 and 1, and its \<open>is_public_health\<close> flag is true exactly when
  that stored, rounded score is at least 0.2. (The code decides the flag on the unrounded
  quotient; for the 24 quotients \<open>k / 23\<close> the two tests agree.)
\<close>

theorem score_range_and_flag:
  assumes "\<forall>r\<in>set jobs. r < length h" and "r \<in> set jobs"
  shows "\<exists>s. relevance_score (fst (filter_public_health_jobs h jobs) ! r) = Some s \<and>
             0 \<le> s \<and> s \<le> 1 \<and>
             is_public_health (fst (filter_public_health_jobs h jobs) ! r) = Some (1/5 \<le> s)"
proof -
  have "r < length h" using assms by simp
  then have "fst (filter_public_health_jobs h jobs) ! r = scored (h ! r)"
    using assms by (simp add: filter_heap_nth)
  then show ?thesis
    using score_bounds[of "h ! r"] by (simp add: scored_def)
qed

theorem score_range_and_flag_witness:
  "\<exists>s. relevance_score (fst (filter_public_health_jobs [example_job] [0]) ! 0) = Some s \<and>
       0 \<le> s \<and> s \<le> 1 \<and>
       is_public_health (fst (filter_public_health_jobs [example_job] [0]) ! 0) = Some (1/5 \<le> s)"
  by (rule score_range_and_flag) simp_all

text \<open>
  Claim C10. \<open>filter_public_health_jobs\<close> writes into every record of its input list, in
  place, exactly the two fields \<open>relevance_score\<close> and \<open>is_public_health\<close>: the score is
  the quotient \<open>raw_score\<close> rounded to two decimals, the flag is the test of the threshold,
  \<open>0.2 \<le> raw_score\<close>. Every other field of every record, and every record outside the list,
  is left as it was. Records below the threshold get the two fields as well (with the flag
  false) although they are not in the returned list: a record of the input list is in the
  returned list exactly when its quotient reaches 0.2, which is the value of its stored flag.
\<close>

theorem filter_frame:
  assumes "\<forall>r\<in>set jobs. r < length h"
    and "filter_public_health_jobs h jobs = (h', filtered_jobs)"
  shows "length h' = length h \<and>
         (\<forall>r\<in>set jobs.
            h' ! r = (h ! r)\<lparr>relevance_score := Some (py_round2 (raw_score (h ! r))),
                              is_public_health := Some (1/5 \<le> raw_score (h ! r))\<rparr> \<and>
            (r \<in> set filtered_jobs) = (1/5 \<le> raw_score (h ! r))) \<and>
         (\<forall>i<length h. i \<notin> set jobs \<longrightarrow> h' ! i = h ! i) \<and>
         filtered_jobs = filter (\<lambda>r. 1/5 \<le> raw_score (h ! r)) jobs"
proof -
  have h': "h' = map (\<lambda>i. if i \<in> set jobs then scored (h ! i) else h ! i) [0..<length h]"
    and f: "filtered_jobs = filter (\<lambda>r. 1/5 \<le> raw_score (h ! r)) jobs"
    using assms by (simp_all add: filter_public_health_jobs_char)
  have "length h' = length h"
    by (simp add: h')
  moreover have "\<forall>i<length h. i \<notin> set jobs \<longrightarrow> h' ! i = h ! i"
    by (simp add: h')
  moreover have "\<forall>r\<in>set jobs.
      h' ! r = (h ! r)\<lparr>relevance_score := Some (py_round2 (raw_score (h ! r))),
                        is_public_health := Some (1/5 \<le> raw_score (h ! r))\<rparr> \<and>
      (r \<in> set filtered_jobs) = (1/5 \<le> raw_score (h ! r))"
  proof
    fix r assume r: "r \<in> set jobs"
    then have "r < length h" using assms by simp
    then have "h' ! r = scored (h ! r)"
      using r by (simp add: h')
    then have "h' ! r = (h ! r)\<lparr>relevance_score := Some (py_round2 (raw_score (h ! r))),
                                  is_public_health := Some (1/5 \<le> raw_score (h ! r))\<rparr>"
      by (simp only: scored_def)
    moreover have "(r \<in> set filtered_jobs) = (1/5 \<le> raw_score (h ! r))"
      using r by (simp add: f)
    ultimately show
      "h' ! r = (h ! r)\<lparr>relevance_score := Some (py_round2 (raw_score (h ! r))),
                         is_public_health := Some (1/5 \<le> raw_score (h ! r))\<rparr> \<and>
       (r \<in> set filtered_jobs) = (1/5 \<le> raw_score (h ! r))"
      by (rule conjI)
  qed
  ultimately show ?thesis using f by blast
qed

theorem filter_frame_witness:
  "filter_public_health_jobs [example_job] [0] =
     ([example_job\<lparr>relevance_score := Some (17/100), is_public_health := Some False\<rparr>], []) \<and>
   raw_score example_job = 4/23 \<and>
   [example_job\<lparr>relevance_score := Some (17/100), is_public_health := Some False\<rparr>] ! 0 =
     ([example_job] ! 0)\<lparr>relevance_score := Some (py_round2 (raw_score ([example_job] ! 0))),
                          is_public_health := Some (1/5 \<le> raw_score ([example_job] ! 0))\<rparr> \<and>
   ((0::nat) \<in> set []) = (1/5 \<le> raw_score ([example_job] ! 0))"
proof -
  have live: "\<forall>r\<in>set [0::nat]. r < length [example_job]" by simp
  have mem: "(0::nat) \<in> set [0]" by simp
  from filter_frame[OF live example_filter] mem example_filter example_raw_score
  show ?thesis by blast
qed

text \<open>
  Claim C2, as the code has it. The stored \<open>relevance_score\<close> is the match count divided by
  the length of the vocabulary list, rounded to two decimals. The match count runs along the
  list and counts every entry that is a case-insensitive substring of title, a blank and
  organization, so the entry "health", listed twice, counts twice. The denominator is the
  length of the list, 23, in which "health" counts twice as well; the list has 22 distinct
  entries.
\<close>

theorem relevance_score_formula:
  assumes "\<forall>r\<in>set jobs. r < length h" and "r \<in> set jobs"
  shows "relevance_score (fst (filter_public_health_jobs h jobs) ! r) =
           Some (py_round2
             (of_nat (length (filter
                (\<lambda>k. ci_substring k (title (h ! r) @ '' '' @ organization (h ! r)))
                public_health_keywords))
              / of_nat (length public_health_keywords))) \<and>
         length public_health_keywords = 23 \<and> card (set public_health_keywords) = 22"
proof -
  have "r < length h" using assms by simp
  then have "fst (filter_public_health_jobs h jobs) ! r = scored (h ! r)"
    using assms by (simp add: filter_heap_nth)
  then have "relevance_score (fst (filter_public_health_jobs h jobs) ! r) =
      Some (py_round2 (raw_score (h ! r)))"
    by (simp add: scored_def)
  then show ?thesis
    by (simp add: raw_score_def job_text_def keyword_matches_ci keywords_length keywords_card)
qed

theorem relevance_score_formula_witness:
  "relevance_score (fst (filter_public_health_jobs [example_job] [0]) ! 0) =
     Some (py_round2
       (of_nat (length (filter
          (\<lambda>k. ci_substring k (title ([example_job] ! 0) @ '' '' @ organization ([example_job] ! 0)))
          public_health_keywords))
        / of_nat (length public_health_keywords)))"
proof -
  have live: "\<forall>r\<in>set [0::nat]. r < length [example_job]" by simp
  have mem: "(0::nat) \<in> set [0]" by simp
  from relevance_score_formula[OF live mem] show ?thesis by blast
qed

text \<open>
  Claim C2 as the specification words it, with duplicates counted once in the denominator,
  fails: for a posting titled "Public Health Data" the code stores 0.17 (4 of 23), the
  specification's formula gives 0.18 (4 of 22).
\<close>

lemma spec_relevance_score_eq:
  "spec_relevance_score j =
     py_round2 (of_nat (keyword_matches (job_text j)) / of_nat (card (set public_health_keywords)))"
  by (simp add: spec_relevance_score_def job_text_def keyword_matches_ci)

theorem spec_denominator_counterexample:
  "relevance_score (fst (filter_public_health_jobs [example_job] [0]) ! 0) = Some (17/100) \<and>
   spec_relevance_score example_job = 18/100"
proof -
  have "of_nat (keyword_matches (job_text example_job)) / 23 = (4/23 :: rat)"
    using example_raw_score by (simp add: raw_score_eq)
  then have "keyword_matches (job_text example_job) = 4"
    by simp
  then have a: "spec_relevance_score example_job = py_round2 (4/22)"
    by (simp add: spec_relevance_score_eq keywords_card)
  have s: "spec_relevance_score example_job = 18/100"
    unfolding a by (rule round_4_22)
  have c: "relevance_score (fst (filter_public_health_jobs [example_job] [0]) ! 0) = Some (17/100)"
    by (simp add: example_filter)
  from c s show ?thesis by blast
qed

section \<open>Aggregation: auxiliary facts\<close>

text \<open>The records that pass the threshold, with the two fields stored.\<close>

lemma alloc_filter:
  "filter_public_health_jobs (h @ js) [length h ..< length h + length js] =
     (h @ map scored js,
      filter (\<lambda>r. 1/5 \<le> raw_score ((h @ js) ! r)) [length h ..< length h + length js])"
proof -
  let ?refs = "[length h ..< length h + length js]"
  have live: "\<forall>r\<in>set ?refs. r < length (h @ js)" by simp
  have "map (\<lambda>i. if i \<in> set ?refs then scored ((h @ js) ! i) else (h @ js) ! i)
          [0..<length (h @ js)] = h @ map scored js"
    by (rule nth_equalityI) (auto simp: nth_append)
  then show ?thesis
    using filter_public_health_jobs_char[OF live] by simp
qed

lemma filter_upt_shift:
  "map (\<lambda>r. f (r - n)) (filter (\<lambda>r. P (r - n)) [n ..< n + m]) =
   map f (filter P [0 ..< m])"
proof -
  have "[n ..< n + m] = map (\<lambda>i. i + n) [0 ..< m]"
    by (simp add: map_add_upt add.commute)
  then show ?thesis
    by (simp add: filter_map comp_def)
qed

lemma map_filter_nth:
  "map (\<lambda>i. f (js ! i)) (filter (\<lambda>i. P (js ! i)) [0 ..< length js]) = map f (filter P js)"
proof -
  have "map f (filter P js) = map f (filter P (map (\<lambda>i. js ! i) [0 ..< length js]))"
    by (simp add: map_nth)
  also have "\<dots> = map (\<lambda>i. f (js ! i)) (filter (\<lambda>i. P (js ! i)) [0 ..< length js])"
    by (simp add: filter_map comp_def)
  finally show ?thesis by simp
qed

lemma alloc_filter_values:
  assumes "filter_public_health_jobs (h @ js) [length h ..< length h + length js] = (h2, flt)"
  shows "h2 = h @ map scored js"
    and "map (\<lambda>r. h2 ! r) flt = map scored (filter (\<lambda>j. 1/5 \<le> raw_score j) js)"
    and "\<forall>r\<in>set flt. r < length h2"
proof -
  let ?refs = "[length h ..< length h + length js]"
  from assms show h2: "h2 = h @ map scored js"
    by (simp add: alloc_filter)
  from assms have flt: "flt = filter (\<lambda>r. 1/5 \<le> raw_score ((h @ js) ! r)) ?refs"
    by (simp add: alloc_filter)
  have flt': "flt = filter (\<lambda>r. 1/5 \<le> raw_score (js ! (r - length h))) ?refs"
    unfolding flt by (rule filter_cong[OF refl]) (auto simp: nth_append)
  show "\<forall>r\<in>set flt. r < length h2"
    by (auto simp: flt h2)
  have "map (\<lambda>r. h2 ! r) flt = map (\<lambda>r. scored (js ! (r - length h))) flt"
    by (rule map_cong[OF refl]) (auto simp: flt h2 nth_append)
  also have "\<dots> = map (\<lambda>i. scored (js ! i)) (filter (\<lambda>i. 1/5 \<le> raw_score (js ! i)) [0 ..< length js])"
    unfolding flt'
    by (rule filter_upt_shift[of "\<lambda>i. scored (js ! i)" "length h" "\<lambda>i. 1/5 \<le> raw_score (js ! i)"])
  also have "\<dots> = map scored (filter (\<lambda>j. 1/5 \<le> raw_score j) js)"
    by (rule map_filter_nth)
  finally show "map (\<lambda>r. h2 ! r) flt = map scored (filter (\<lambda>j. 1/5 \<le> raw_score j) js)" .
qed

lemma search_loop_char:
  "\<forall>r\<in>set acc. r < length h \<Longrightarrow>
   search_loop scrape ts sts h acc calls = (h', acc', calls') \<Longrightarrow>
   map (\<lambda>r. h' ! r) acc' =
     map (\<lambda>r. h ! r) acc @
     concat (map (\<lambda>t. map scored (filter (\<lambda>j. 1/5 \<le> raw_score j) (fst (scrape t (Some sts))))) ts) \<and>
   calls' = calls @ concat (map (\<lambda>t. snd (scrape t (Some sts))) ts)"
proof (induction ts arbitrary: h acc calls)
  case Nil
  then show ?case by simp
next
  case (Cons t ts)
  obtain js c where sc: "scrape t (Some sts) = (js, c)"
    by (cases "scrape t (Some sts)")
  obtain h2 flt where f: "filter_public_health_jobs (h @ js) [length h ..< length h + length js] = (h2, flt)"
    by (cases "filter_public_health_jobs (h @ js) [length h ..< length h + length js]")
  note v = alloc_filter_values[OF f]
  have step: "search_loop scrape ts sts h2 (acc @ flt) (calls @ c) = (h', acc', calls')"
    using Cons.prems(2) by (simp add: sc alloc_def f)
  have live: "\<forall>r\<in>set (acc @ flt). r < length h2"
    using Cons.prems(1) v(3) by (auto simp: v(1))
  have old: "map (\<lambda>r. h2 ! r) acc = map (\<lambda>r. h ! r) acc"
    by (rule map_cong[OF refl]) (use Cons.prems(1) in \<open>auto simp: v(1) nth_append\<close>)
  from Cons.IH[OF live step] show ?case
    by (simp add: old v(2) sc)
qed

lemma accumulated_eq:
  "accumulated scrape cfg =
     concat (map (\<lambda>t. map scored (filter (\<lambda>j. 1/5 \<le> raw_score j)
                                   (fst (scrape t (Some (sites cfg))))))
                 (search_terms cfg))"
proof -
  obtain h' acc' calls' where
    s: "search_loop scrape (search_terms cfg) (sites cfg) [] [] [] = (h', acc', calls')"
    by (cases "search_loop scrape (search_terms cfg) (sites cfg) [] [] []") auto
  from search_loop_char[OF _ s] show ?thesis
    by (simp add: accumulated_def s)
qed

lemma search_loop_calls:
  "snd (snd (search_loop scrape ts sts [] [] [])) = concat (map (\<lambda>t. snd (scrape t (Some sts))) ts)"
proof -
  obtain h' acc' calls' where s: "search_loop scrape ts sts [] [] [] = (h', acc', calls')"
    by (cases "search_loop scrape ts sts [] [] []") auto
  from search_loop_char[OF _ s] show ?thesis
    by (simp add: s)
qed

lemma main_body_run:
  "search_terms cfg \<noteq> [] \<Longrightarrow> sites cfg \<noteq> [] \<Longrightarrow>
   main_body scrape cfg =
     (Inr (unique_loop (accumulated scrape cfg) {} []),
      concat (map (\<lambda>t. snd (scrape t (Some (sites cfg)))) (search_terms cfg)))"
  using search_loop_calls[of scrape "search_terms cfg" "sites cfg"]
  by (auto simp: main_body_def accumulated_def split: prod.splits)

section \<open>Duplicate removal: auxiliary facts\<close>

lemma unique_loop_acc:
  "unique_loop js seen acc = acc @ unique_loop js seen []"
proof (induction js arbitrary: seen acc)
  case Nil
  show ?case by simp
next
  case (Cons j js)
  show ?case
  proof (cases "url j \<in> seen")
    case True
    then show ?thesis using Cons.IH[of seen acc] by simp
  next
    case False
    then show ?thesis
      using Cons.IH[of "insert (url j) seen" "acc @ [j]"] Cons.IH[of "insert (url j) seen" "[j]"]
      by simp
  qed
qed

lemma unique_loop_Cons:
  "unique_loop (j # js) seen [] =
     (if url j \<in> seen then unique_loop js seen []
      else j # unique_loop js (insert (url j) seen) [])"
  using unique_loop_acc[of js "insert (url j) seen" "[j]"] by simp

lemma unique_loop_urls:
  "url ` set (unique_loop js seen []) = url ` set js - seen"
proof (induction js arbitrary: seen)
  case Nil
  show ?case by simp
next
  case (Cons j js)
  show ?case
    unfolding unique_loop_Cons using Cons.IH by auto
qed

lemma unique_loop_distinct:
  "distinct (map url (unique_loop js seen []))"
proof (induction js arbitrary: seen)
  case Nil
  show ?case by simp
next
  case (Cons j js)
  have "url j \<notin> url ` set (unique_loop js (insert (url j) seen) [])"
    by (simp add: unique_loop_urls)
  then show ?case
    unfolding unique_loop_Cons using Cons.IH by auto
qed

lemma unique_loop_find:
  "find (\<lambda>x. url x = u) (unique_loop js seen []) =
     (if u \<in> seen then None else find (\<lambda>x. url x = u) js)"
proof (induction js arbitrary: seen)
  case Nil
  show ?case by simp
next
  case (Cons j js)
  show ?case
    unfolding unique_loop_Cons using Cons.IH by auto
qed

lemma unique_loop_subseq:
  "subseq (unique_loop js seen []) js"
proof (induction js arbitrary: seen)
  case Nil
  show ?case by simp
next
  case (Cons j js)
  show ?case
    unfolding unique_loop_Cons using Cons.IH by auto
qed

lemma distinct_count_one:
  "distinct (map f xs) \<Longrightarrow> x \<in> set xs \<Longrightarrow> length (filter (\<lambda>y. f y = f x) xs) = 1"
proof (induction xs)
  case Nil
  then show ?case by simp
next
  case (Cons a xs)
  show ?case
  proof (cases "f a = f x")
    case True
    have "f y \<noteq> f x" if "y \<in> set xs" for y
    proof
      assume "f y = f x"
      then have "f a \<in> f ` set xs" using that True by (metis imageI)
      with Cons.prems(1) show False by simp
    qed
    then have "filter (\<lambda>y. f y = f x) xs = []" by (simp add: filter_empty_conv)
    then show ?thesis using True by simp
  next
    case False
    then have "x \<in> set xs" using Cons.prems(2) by auto
    then show ?thesis using Cons.IH Cons.prems(1) False by simp
  qed
qed

section \<open>Sites loop\<close>

lemma sites_loop_acc:
  "sites_loop w t ss all_jobs calls =
     (all_jobs @ fst (sites_loop w t ss [] []), calls @ snd (sites_loop w t ss [] []))"
proof (induction ss arbitrary: all_jobs calls)
  case Nil
  show ?case by simp
next
  case (Cons s ss)
  obtain js c where sc: "scrape_site w t s = (js, c)"
    by (cases "scrape_site w t s")
  show ?case
    using Cons.IH[of "all_jobs @ js" "calls @ c"] Cons.IH[of js c]
    by (simp add: sc)
qed

lemma sites_loop_eq:
  "sites_loop w t ss [] [] =
     (concat (map (\<lambda>s. fst (scrape_site w t s)) ss), concat (map (\<lambda>s. snd (scrape_site w t s)) ss))"
proof (induction ss)
  case Nil
  show ?case by simp
next
  case (Cons s ss)
  obtain js c where sc: "scrape_site w t s = (js, c)"
    by (cases "scrape_site w t s")
  show ?case
    using sites_loop_acc[of w t ss js c] Cons.IH by (simp add: sc)
qed

lemma sites_loop2_acc:
  "sites_loop2 w t ss all_jobs calls =
     (all_jobs @ fst (sites_loop2 w t ss [] []), calls @ snd (sites_loop2 w t ss [] []))"
proof (induction ss arbitrary: all_jobs calls)
  case Nil
  show ?case by simp
next
  case (Cons s ss)
  obtain js c where sc: "scrape_site2 w t s = (js, c)"
    by (cases "scrape_site2 w t s")
  show ?case
    using Cons.IH[of "all_jobs @ js" "calls @ c"] Cons.IH[of js c]
    by (simp add: sc)
qed

lemma sites_loop2_eq:
  "sites_loop2 w t ss [] [] =
     (concat (map (\<lambda>s. fst (scrape_site2 w t s)) ss), concat (map (\<lambda>s. snd (scrape_site2 w t s)) ss))"
proof (induction ss)
  case Nil
  show ?case by simp
next
  case (Cons s ss)
  obtain js c where sc: "scrape_site2 w t s = (js, c)"
    by (cases "scrape_site2 w t s")
  show ?case
    using sites_loop2_acc[of w t ss js c] Cons.IH by (simp add: sc)
qed

section \<open>Adapters: auxiliary facts\<close>

lemma in_map_filter:
  "y \<in> set (List.map_filter f xs) \<Longrightarrow> \<exists>x\<in>set xs. f x = Some y"
  by (induction xs) (auto split: option.splits)

lemma api_job_url:
  assumes "api_job w t item = Some j"
  shows "prefix ''https://reliefweb.int/job/'' (url j)"
proof (cases "item_id item")
  case None
  with assms show ?thesis by (simp add: api_job_def Let_def)
next
  case (Some i)
  with assms have "url j = ''https://reliefweb.int/job/'' @ i"
    by (auto simp: api_job_def Let_def)
  then show ?thesis by simp
qed

lemma html_job_url:
  assumes "html_job w t art = Some j"
  shows "url j = [] \<or> prefix ''https://reliefweb.int'' (url j)"
proof (cases "art_h3 art")
  case None
  with assms show ?thesis by (simp add: html_job_def)
next
  case h3: (Some a)
  show ?thesis
  proof (cases a)
    case None
    with h3 assms show ?thesis by (simp add: html_job_def)
  next
    case (Some l)
    let ?p = "case link_href l of None \<Rightarrow> [] | Some p \<Rightarrow> p"
    from Some h3 assms have "url j = (if ?p \<noteq> [] then ''https://reliefweb.int'' @ ?p else [])"
      by (auto simp: html_job_def Let_def)
    then show ?thesis by (cases "?p = []") simp_all
  qed
qed

lemma devex_job_url:
  assumes "devex_job w t el = Some j"
  shows "url j = [] \<or> prefix ''http'' (url j)"
proof -
  let ?te = "case div_h3 el of Some t \<Rightarrow> Some t
             | None \<Rightarrow> (case div_h2 el of Some t \<Rightarrow> Some t
                        | None \<Rightarrow> map_option link_text (div_a el))"
  show ?thesis
  proof (cases ?te)
    case None
    with assms show ?thesis by (simp add: devex_job_def)
  next
    case (Some tt)
    show ?thesis
    proof (cases "length tt < 5")
      case True
      with Some assms show ?thesis by (simp add: devex_job_def)
    next
      case False
      define u where "u = (case div_a el of None \<Rightarrow> []
                           | Some a \<Rightarrow> (case link_href a of None \<Rightarrow> [] | Some h \<Rightarrow> h))"
      from False Some assms have
        u: "url j = (if u \<noteq> [] \<and> \<not> prefix ''http'' u then ''https://www.devex.com'' @ u else u)"
        unfolding u_def by (auto simp: devex_job_def Let_def)
      show ?thesis
      proof (cases "u \<noteq> [] \<and> \<not> prefix ''http'' u")
        case True
        then have "url j = ''https://www.devex.com'' @ u" using u by simp
        then show ?thesis by (simp add: prefix_def)
      next
        case False
        then show ?thesis using u by auto
      qed
    qed
  qed
qed

lemma api_urls:
  assumes "j \<in> set (fst (scrape_reliefweb_api w t n))"
  shows "prefix ''https://reliefweb.int/job/'' (url j)"
proof (cases "api_response w t n")
  case None
  with assms show ?thesis by (simp add: scrape_reliefweb_api_def)
next
  case (Some data)
  with assms have "j \<in> set (List.map_filter (api_job w t) (take n data))"
    by (simp add: scrape_reliefweb_api_def)
  then obtain x where "api_job w t x = Some j"
    using in_map_filter by fastforce
  then show ?thesis by (rule api_job_url)
qed

lemma html_urls:
  assumes "j \<in> set (fst (scrape_reliefweb_html w t n))"
  shows "url j = [] \<or> prefix ''https://reliefweb.int'' (url j)"
proof (cases "bs_available w")
  case False
  with assms show ?thesis by (simp add: scrape_reliefweb_html_def)
next
  case True
  show ?thesis
  proof (cases "html_response w t")
    case None
    with True assms show ?thesis by (simp add: scrape_reliefweb_html_def)
  next
    case (Some els)
    with True assms have "j \<in> set (List.map_filter (html_job w t) (take n els))"
      by (simp add: scrape_reliefweb_html_def)
    then obtain x where "html_job w t x = Some j"
      using in_map_filter by fastforce
    then show ?thesis by (rule html_job_url)
  qed
qed

lemma devex_urls:
  assumes "j \<in> set (fst (scrape_devex w t n))"
  shows "url j = [] \<or> prefix ''http'' (url j)"
proof (cases "bs_available w")
  case False
  with assms show ?thesis by (simp add: scrape_devex_def)
next
  case True
  show ?thesis
  proof (cases "devex_response w t")
    case None
    with True assms show ?thesis by (simp add: scrape_devex_def)
  next
    case (Some els)
    with True assms have "j \<in> set (List.map_filter (devex_job w t) (take n els))"
      by (simp add: scrape_devex_def)
    then obtain x where "devex_job w t x = Some j"
      using in_map_filter by fastforce
    then show ?thesis by (rule devex_job_url)
  qed
qed

lemma mock_urls:
  assumes "j \<in> set (get_mock_jobs w t)"
  shows "prefix ''https://reliefweb.int/job/'' (url j)"
proof -
  have "map url (get_mock_jobs w t) =
      [''https://reliefweb.int/job/example1'', ''https://reliefweb.int/job/example2'',
       ''https://reliefweb.int/job/example3'']"
    by (simp add: get_mock_jobs_def)
  moreover have "url j \<in> set (map url (get_mock_jobs w t))"
    using assms by simp
  ultimately have "url j \<in> {''https://reliefweb.int/job/example1'',
      ''https://reliefweb.int/job/example2'', ''https://reliefweb.int/job/example3''}"
    by simp
  then show ?thesis by (auto simp: prefix_def)
qed

lemma api2_urls:
  assumes "j \<in> set (fst (scrape_reliefweb_api2 w t n))"
  shows "prefix ''https://reliefweb.int/job/'' (url j)"
proof (cases "api_response w t n")
  case None
  with assms have "j \<in> set (get_mock_jobs w t)"
    by (simp add: scrape_reliefweb_api2_def)
  then show ?thesis by (rule mock_urls)
next
  case (Some data)
  with assms have "j \<in> set (List.map_filter (api_job w t) (take n data))"
    by (simp add: scrape_reliefweb_api2_def)
  then obtain x where "api_job w t x = Some j"
    using in_map_filter by fastforce
  then show ?thesis by (rule api_job_url)
qed

lemma prefix_job_http:
  "prefix ''https://reliefweb.int/job/'' u \<Longrightarrow> prefix ''http'' u"
  "prefix ''https://reliefweb.int'' u \<Longrightarrow> prefix ''http'' u"
  by (auto simp: prefix_def)

lemma scrape_site_reliefweb:
  "scrape_site w t ''reliefweb'' =
     (if fst (scrape_reliefweb_api w t 20) = []
      then (fst (scrape_reliefweb_html w t 15), [ApiCall t 20, HtmlCall t 15])
      else (fst (scrape_reliefweb_api w t 20), [ApiCall t 20]))"
  by (simp add: scrape_site_def scrape_reliefweb_api_def scrape_reliefweb_html_def)

lemma scrape_site_urls:
  "j \<in> set (fst (scrape_site w t s)) \<Longrightarrow> url j = [] \<or> prefix ''http'' (url j)"
proof -
  assume j: "j \<in> set (fst (scrape_site w t s))"
  consider (rw) "s = ''reliefweb''" | (dx) "s \<noteq> ''reliefweb''" "s = ''devex'' \<and> bs_available w"
    | (other) "s \<noteq> ''reliefweb''" "\<not> (s = ''devex'' \<and> bs_available w)"
    by blast
  then show ?thesis
  proof cases
    case rw
    with j show ?thesis
      using api_urls[of j w t 20] html_urls[of j w t 15] prefix_job_http[of "url j"]
      by (auto simp: scrape_site_reliefweb split: if_splits)
  next
    case dx
    with j show ?thesis
      using devex_urls[of j w t 15] by (simp add: scrape_site_def)
  next
    case other
    with j show ?thesis by (auto simp: scrape_site_def)
  qed
qed

lemma adapter_calls:
  "snd (scrape_reliefweb_api w t n) = [ApiCall t n]"
  "snd (scrape_reliefweb_html w t n) = [HtmlCall t n]"
  "snd (scrape_devex w t n) = [DevexCall t n]"
  "snd (scrape_reliefweb_api2 w t n) = [ApiCall t n]"
  by (simp_all add: scrape_reliefweb_api_def scrape_reliefweb_html_def scrape_devex_def
        scrape_reliefweb_api2_def)

lemma scrape_site_calls:
  assumes "x \<in> set (snd (scrape_site w t s))"
  shows "x = ApiCall t 20 \<or> x = HtmlCall t 15 \<or> x = DevexCall t 15"
proof -
  consider (rw) "s = ''reliefweb''" | (dx) "s \<noteq> ''reliefweb''" "s = ''devex'' \<and> bs_available w"
    | (other) "s \<noteq> ''reliefweb''" "\<not> (s = ''devex'' \<and> bs_available w)"
    by blast
  then show ?thesis
  proof cases
    case rw
    with assms show ?thesis
      by (cases "fst (scrape_reliefweb_api w t 20) = []") (auto simp: scrape_site_reliefweb)
  next
    case dx
    with assms show ?thesis
      by (simp add: scrape_site_def adapter_calls)
  next
    case other
    with assms show ?thesis
      by (auto simp: scrape_site_def)
  qed
qed

lemma scrape_site2_calls:
  assumes "x \<in> set (snd (scrape_site2 w t s))"
  shows "x = ApiCall t 20"
  using assms by (cases "s = ''reliefweb''") (simp_all add: scrape_site2_def adapter_calls)

lemma scrape_development_sites_eq:
  "scrape_development_sites w t (Some ss) =
     (concat (map (\<lambda>s. fst (scrape_site w t s)) ss),
      concat (map (\<lambda>s. snd (scrape_site w t s)) ss))"
  by (simp add: scrape_development_sites_def sites_loop_eq)

lemma scrape_development_sites2_eq:
  "scrape_development_sites2 w t (Some ss) =
     (concat (map (\<lambda>s. fst (scrape_site2 w t s)) ss),
      concat (map (\<lambda>s. snd (scrape_site2 w t s)) ss))"
  by (simp add: scrape_development_sites2_def sites_loop2_eq)

section \<open>Adapters: results\<close>

lemma html_job_url_eq:
  assumes "art_h3 art = Some (Some l)"
  shows "map_option url (html_job w t art) =
           Some (case link_href l of
                   None \<Rightarrow> []
                 | Some p \<Rightarrow> if p = [] then [] else ''https://reliefweb.int'' @ p)"
  using assms by (cases "link_href l") (simp_all add: html_job_def Let_def)

lemma devex_job_url_eq:
  assumes "devex_job w t el = Some j"
  shows "url j =
           (case div_a el of
              None \<Rightarrow> []
            | Some a \<Rightarrow>
                (case link_href a of
                   None \<Rightarrow> []
                 | Some p \<Rightarrow> if p = [] \<or> prefix ''http'' p then p
                            else ''https://www.devex.com'' @ p))"
proof -
  let ?te = "case div_h3 el of Some t \<Rightarrow> Some t
             | None \<Rightarrow> (case div_h2 el of Some t \<Rightarrow> Some t
                        | None \<Rightarrow> map_option link_text (div_a el))"
  show ?thesis
  proof (cases ?te)
    case None
    with assms show ?thesis by (simp add: devex_job_def)
  next
    case (Some tt)
    show ?thesis
    proof (cases "length tt < 5")
      case True
      with Some assms show ?thesis by (simp add: devex_job_def)
    next
      case False
      define u where "u = (case div_a el of None \<Rightarrow> []
                           | Some a \<Rightarrow> (case link_href a of None \<Rightarrow> [] | Some h \<Rightarrow> h))"
      from False Some assms have
        u: "url j = (if u \<noteq> [] \<and> \<not> prefix ''http'' u then ''https://www.devex.com'' @ u else u)"
        unfolding u_def by (auto simp: devex_job_def Let_def)
      show ?thesis
      proof (cases "div_a el")
        case None
        then show ?thesis using u by (simp add: u_def)
      next
        case a: (Some a)
        show ?thesis
        proof (cases "link_href a")
          case None
          then show ?thesis using u a by (simp add: u_def)
        next
          case (Some p)
          then have "u = p" using a by (simp add: u_def)
          then show ?thesis using u a Some by auto
        qed
      qed
    qed
  qed
qed

lemma sites_None:
  "scrape_development_sites w t None = scrape_development_sites w t (Some [''reliefweb''])"
  "scrape_development_sites2 w t None = scrape_development_sites2 w t (Some [''reliefweb''])"
  by (simp_all add: scrape_development_sites_def scrape_development_sites2_def)

lemma sites_calls:
  assumes "x \<in> set (snd (scrape_development_sites w t sts))"
  shows "x = ApiCall t 20 \<or> x = HtmlCall t 15 \<or> x = DevexCall t 15"
proof -
  obtain ss where "scrape_development_sites w t sts = scrape_development_sites w t (Some ss)"
    by (cases sts) (simp_all add: sites_None)
  with assms obtain s where "x \<in> set (snd (scrape_site w t s))"
    by (auto simp: scrape_development_sites_eq)
  then show ?thesis by (rule scrape_site_calls)
qed

lemma sites2_calls:
  assumes "x \<in> set (snd (scrape_development_sites2 w t sts))"
  shows "x = ApiCall t 20"
proof -
  obtain ss where "scrape_development_sites2 w t sts = scrape_development_sites2 w t (Some ss)"
    by (cases sts) (simp_all add: sites_None)
  with assms obtain s where "x \<in> set (snd (scrape_site2 w t s))"
    by (auto simp: scrape_development_sites2_eq)
  then show ?thesis by (rule scrape_site2_calls)
qed

text \<open>
  Claim C7, as the code has it. A record of the API adapter (and a canned record of the second
  file) has a url that begins with "https://reliefweb.int/job/". A record kept by the
  ReliefWeb HTML strategy has the empty url when the title link has no or an empty
  \<open>href\<close>, and otherwise "https://reliefweb.int" followed by the \<open>href\<close>. A record kept
  by the Devex strategy has the empty url when the entry has no link or the link no or an
  empty \<open>href\<close>; otherwise its url is the \<open>href\<close> when that begins with "http", and
  "https://www.devex.com" followed by the \<open>href\<close> when it does not. So every url that
  \<open>scrape_development_sites\<close> returns is empty or begins with "http", and it is empty
  exactly for the entries kept without a link target.
\<close>

theorem adapter_urls:
  "(\<forall>j\<in>set (fst (scrape_reliefweb_api w t n)). prefix ''https://reliefweb.int/job/'' (url j)) \<and>
   (\<forall>j\<in>set (fst (scrape_reliefweb_html w t n)).
      url j = [] \<or> prefix ''https://reliefweb.int'' (url j)) \<and>
   (\<forall>j\<in>set (fst (scrape_devex w t n)). url j = [] \<or> prefix ''http'' (url j)) \<and>
   (\<forall>j\<in>set (fst (scrape_development_sites w t sts)).
      url j = [] \<or> prefix ''http'' (url j)) \<and>
   (\<forall>j\<in>set (fst (scrape_development_sites2 w t sts)).
      prefix ''https://reliefweb.int/job/'' (url j)) \<and>
   (\<forall>art l. art_h3 art = Some (Some l) \<longrightarrow>
      map_option url (html_job w t art) =
        Some (case link_href l of
                None \<Rightarrow> []
              | Some p \<Rightarrow> if p = [] then [] else ''https://reliefweb.int'' @ p)) \<and>
   (\<forall>el j. devex_job w t el = Some j \<longrightarrow>
      url j = (case div_a el of
                 None \<Rightarrow> []
               | Some a \<Rightarrow>
                   (case link_href a of
                      None \<Rightarrow> []
                    | Some p \<Rightarrow> if p = [] \<or> prefix ''http'' p then p
                               else ''https://www.devex.com'' @ p)))"
proof -
  obtain ss where ss: "scrape_development_sites w t sts = scrape_development_sites w t (Some ss)"
    by (cases sts) (simp_all add: sites_None)
  obtain ss2 where ss2: "scrape_development_sites2 w t sts = scrape_development_sites2 w t (Some ss2)"
    by (cases sts) (simp_all add: sites_None)
  have "\<forall>j\<in>set (fst (scrape_development_sites w t sts)).
      url j = [] \<or> prefix ''http'' (url j)"
    unfolding ss by (auto simp: scrape_development_sites_eq dest: scrape_site_urls)
  moreover have "\<forall>j\<in>set (fst (scrape_development_sites2 w t sts)).
      prefix ''https://reliefweb.int/job/'' (url j)"
  proof
    fix j assume "j \<in> set (fst (scrape_development_sites2 w t sts))"
    then obtain s where "j \<in> set (fst (scrape_site2 w t s))"
      unfolding ss2 by (auto simp: scrape_development_sites2_eq)
    then have "j \<in> set (fst (scrape_reliefweb_api2 w t 20))"
      by (cases "s = ''reliefweb''") (simp_all add: scrape_site2_def)
    then show "prefix ''https://reliefweb.int/job/'' (url j)"
      by (rule api2_urls)
  qed
  ultimately show ?thesis
    using api_urls[of _ w t n] html_urls[of _ w t n] devex_urls[of _ w t n]
      html_job_url_eq[of _ _ w t] devex_job_url_eq[of w t]
    by blast
qed

lemma two_postings_scrape:
  "map url (fst (scrape_development_sites two_postings_world ''public health'' (Some [''reliefweb'']))) =
     [''https://reliefweb.int/job/1'', ''https://reliefweb.int/job/2'']"
  by code_simp

theorem adapter_urls_witness:
  "map url (fst (scrape_development_sites two_postings_world ''public health'' (Some [''reliefweb'']))) =
     [''https://reliefweb.int/job/1'', ''https://reliefweb.int/job/2''] \<and>
   (''https://reliefweb.int/job/1'' = [] \<or> prefix ''http'' ''https://reliefweb.int/job/1'') \<and>
   map_option url
     (html_job link_missing_world ''nurse''
        \<lparr> art_h3 = Some (Some \<lparr> link_text = ''Public Health Nurse'', link_href = None \<rparr>),
          art_dd = None, art_country = None, art_time = None \<rparr>) = Some []"
proof -
  let ?js = "fst (scrape_development_sites two_postings_world ''public health'' (Some [''reliefweb'']))"
  let ?l = "\<lparr> link_text = ''Public Health Nurse'', link_href = None \<rparr>"
  let ?art = "\<lparr> art_h3 = Some (Some ?l), art_dd = None, art_country = None, art_time = None \<rparr>"
  have "''https://reliefweb.int/job/1'' \<in> set (map url ?js)"
    by (simp add: two_postings_scrape)
  then obtain j where j: "j \<in> set ?js" "url j = ''https://reliefweb.int/job/1''"
    by auto
  from adapter_urls[of two_postings_world "''public health''" 20 "Some [''reliefweb'']"] j(1)
  have "url j = [] \<or> prefix ''http'' (url j)" by blast
  then have first:
    "''https://reliefweb.int/job/1'' = [] \<or> prefix ''http'' ''https://reliefweb.int/job/1''"
    by (simp only: j(2))
  have h3: "art_h3 ?art = Some (Some ?l)" by simp
  from adapter_urls[of link_missing_world "''nurse''" 15 None] h3
  have "map_option url (html_job link_missing_world ''nurse'' ?art) =
      Some (case link_href ?l of
              None \<Rightarrow> []
            | Some p \<Rightarrow> if p = [] then [] else ''https://reliefweb.int'' @ p)"
    by blast
  then have second: "map_option url (html_job link_missing_world ''nurse'' ?art) = Some []"
    by simp
  from first second two_postings_scrape show ?thesis by blast
qed

text \<open>
  Claim C7 as stated fails: when the link is missing, both HTML strategies keep the entry with
  the empty string as its url.
\<close>

theorem missing_link_counterexample:
  "map url (fst (scrape_development_sites link_missing_world ''nurse''
                   (Some [''reliefweb'', ''devex'']))) = ['''', '''']"
  by code_simp




section \<open>Runs: auxiliary facts\<close>

lemma example_accumulated:
  "accumulated (scrape_development_sites two_postings_world) example_config =
     [who_posting ''public health'', who_posting ''health data'']"
  by code_simp

lemma example_run:
  "main two_postings_world example_config =
     (Inr [who_posting ''public health''],
      [ApiCall ''public health'' 20, ApiCall ''health data'' 20])"
  by code_simp

lemma url_scored: "url (scored j) = url j"
  by (simp add: scored_def)

lemma main_body_out:
  assumes "fst (main_body scrape cfg) = Inr out"
  shows "out = unique_loop (accumulated scrape cfg) {} []"
proof (cases "search_terms cfg = []")
  case True
  with assms show ?thesis by (simp add: main_body_def)
next
  case terms: False
  show ?thesis
  proof (cases "sites cfg = []")
    case True
    with terms assms show ?thesis by (simp add: main_body_def)
  next
    case False
    with terms assms show ?thesis by (simp add: main_body_run)
  qed
qed

lemma main_refused:
  "search_terms cfg = [] \<Longrightarrow> main_body scrape cfg = (Inl NoSearchTerm, [])"
  "search_terms cfg \<noteq> [] \<Longrightarrow> sites cfg = [] \<Longrightarrow> main_body scrape cfg = (Inl NoWebsite, [])"
  by (simp_all add: main_body_def)

lemma main_body_cap:
  "main_body scrape (cfg\<lparr>max_jobs_per_search := c\<rparr>) = main_body scrape cfg"
  by (simp add: main_body_def)

lemma main_body_calls:
  assumes "\<And>t x. x \<in> set (snd (scrape t (Some (sites cfg)))) \<Longrightarrow> P t x"
    and "x \<in> set (snd (main_body scrape cfg))"
  shows "\<exists>t\<in>set (search_terms cfg). P t x"
proof (cases "search_terms cfg = [] \<or> sites cfg = []")
  case True
  then have "snd (main_body scrape cfg) = []"
    by (auto simp: main_body_def)
  with assms(2) show ?thesis by simp
next
  case False
  then have "snd (main_body scrape cfg) =
      concat (map (\<lambda>t. snd (scrape t (Some (sites cfg)))) (search_terms cfg))"
    by (simp add: main_body_run)
  with assms(2) obtain t where "t \<in> set (search_terms cfg)"
      "x \<in> set (snd (scrape t (Some (sites cfg))))"
    by auto
  with assms(1) show ?thesis by blast
qed

section \<open>Aggregation: results\<close>

text \<open>
  Claim C8. When no search term is selected the run is refused with the first error, and when
  a search term but no site is selected it is refused with the second; in both cases the
  function returns before the loop over the search terms, so the record of adapter calls is
  empty. These are the only refusals: with at least one search term and one site the run
  returns a list of jobs, the accumulated list without its duplicates. The same holds for
  both files.
\<close>

theorem config_checks:
  "(search_terms cfg = [] \<longrightarrow>
      main w cfg = (Inl NoSearchTerm, []) \<and> main2 w cfg = (Inl NoSearchTerm, [])) \<and>
   (search_terms cfg \<noteq> [] \<and> sites cfg = [] \<longrightarrow>
      main w cfg = (Inl NoWebsite, []) \<and> main2 w cfg = (Inl NoWebsite, [])) \<and>
   (search_terms cfg \<noteq> [] \<and> sites cfg \<noteq> [] \<longrightarrow>
      fst (main w cfg) = Inr (unique_loop (accumulated (scrape_development_sites w) cfg) {} []) \<and>
      fst (main2 w cfg) = Inr (unique_loop (accumulated (scrape_development_sites2 w) cfg) {} []))"
  by (simp add: main_def main2_def main_refused main_body_run)

theorem config_checks_witness:
  "main two_postings_world (example_config\<lparr>search_terms := []\<rparr>) = (Inl NoSearchTerm, []) \<and>
   main two_postings_world (example_config\<lparr>sites := []\<rparr>) = (Inl NoWebsite, []) \<and>
   fst (main two_postings_world example_config) =
     Inr (unique_loop (accumulated (scrape_development_sites two_postings_world) example_config) {} [])"
proof -
  have a: "search_terms (example_config\<lparr>search_terms := []\<rparr>) = []"
    by simp
  have b: "search_terms (example_config\<lparr>sites := []\<rparr>) \<noteq> [] \<and>
           sites (example_config\<lparr>sites := []\<rparr>) = []"
    by (simp add: example_config_def)
  have c: "search_terms example_config \<noteq> [] \<and> sites example_config \<noteq> []"
    by (simp add: example_config_def)
  from config_checks[of "example_config\<lparr>search_terms := []\<rparr>" two_postings_world]
       config_checks[of "example_config\<lparr>sites := []\<rparr>" two_postings_world]
       config_checks[of example_config two_postings_world] a b c
  show ?thesis by blast
qed

text \<open>
  Claim C9. The slider value \<open>max_jobs_per_search\<close> has no influence on a run: changing it
  changes neither the result nor the adapter calls. Every adapter call that
  \<open>scrape_development_sites\<close> makes carries the adapter's default cap, 20 for the API and 15
  for the HTML and the Devex strategy (in the second file: 20 for the API, its only adapter),
  and so does every adapter call of a whole run.
\<close>

theorem cap_not_passed:
  "main w (cfg\<lparr>max_jobs_per_search := c\<rparr>) = main w cfg \<and>
   main2 w (cfg\<lparr>max_jobs_per_search := c\<rparr>) = main2 w cfg \<and>
   (\<forall>x\<in>set (snd (scrape_development_sites w t sts)).
      x = ApiCall t 20 \<or> x = HtmlCall t 15 \<or> x = DevexCall t 15) \<and>
   (\<forall>x\<in>set (snd (scrape_development_sites2 w t sts)). x = ApiCall t 20) \<and>
   (\<forall>x\<in>set (snd (main w cfg)). \<exists>t\<in>set (search_terms cfg).
      x = ApiCall t 20 \<or> x = HtmlCall t 15 \<or> x = DevexCall t 15) \<and>
   (\<forall>x\<in>set (snd (main2 w cfg)). \<exists>t\<in>set (search_terms cfg). x = ApiCall t 20)"
proof -
  have "\<forall>x\<in>set (snd (main w cfg)). \<exists>t\<in>set (search_terms cfg).
      x = ApiCall t 20 \<or> x = HtmlCall t 15 \<or> x = DevexCall t 15"
    unfolding main_def
    using main_body_calls[of "scrape_development_sites w" cfg
        "\<lambda>t x. x = ApiCall t 20 \<or> x = HtmlCall t 15 \<or> x = DevexCall t 15"] sites_calls
    by blast
  moreover have "\<forall>x\<in>set (snd (main2 w cfg)). \<exists>t\<in>set (search_terms cfg). x = ApiCall t 20"
    unfolding main2_def
    using main_body_calls[of "scrape_development_sites2 w" cfg "\<lambda>t x. x = ApiCall t 20"] sites2_calls
    by blast
  moreover have "\<forall>x\<in>set (snd (scrape_development_sites w t sts)).
      x = ApiCall t 20 \<or> x = HtmlCall t 15 \<or> x = DevexCall t 15"
    using sites_calls by blast
  moreover have "\<forall>x\<in>set (snd (scrape_development_sites2 w t sts)). x = ApiCall t 20"
    using sites2_calls by blast
  ultimately show ?thesis
    by (simp add: main_def main2_def main_body_cap)
qed

theorem cap_not_passed_witness:
  "main two_postings_world (example_config\<lparr>max_jobs_per_search := 30\<rparr>) =
     main two_postings_world example_config \<and>
   snd (main two_postings_world example_config) =
     [ApiCall ''public health'' 20, ApiCall ''health data'' 20] \<and>
   (\<exists>t\<in>set (search_terms example_config).
      ApiCall ''health data'' 20 = ApiCall t 20 \<or> ApiCall ''health data'' 20 = HtmlCall t 15 \<or>
      ApiCall ''health data'' 20 = DevexCall t 15)"
proof -
  have calls: "snd (main two_postings_world example_config) =
      [ApiCall ''public health'' 20, ApiCall ''health data'' 20]"
    by (simp add: example_run)
  then have mem: "ApiCall ''health data'' 20 \<in> set (snd (main two_postings_world example_config))"
    by simp
  from cap_not_passed[where w = two_postings_world and cfg = example_config and c = 30] mem calls
  show ?thesis by blast
qed

text \<open>
  Claim C3. The list a run returns has pairwise distinct urls and is a subsequence of the
  accumulated list \<open>all_jobs\<close>; it has the same urls; for every accumulated record it holds
  exactly one record with that url, and this is the first record with that url in the
  accumulated list, so a later record with the same url is dropped whole, whatever its search
  term. The accumulated list is ordered by search term, and within a search term by site, in
  the order of the two selections; it holds the scored records that passed the relevance
  filter. The statement is about the body of \<open>main\<close> with either file's scraper.
\<close>

theorem dedup_keeps_first:
  assumes "fst (main_body scrape cfg) = Inr out"
  shows "distinct (map url out) \<and>
         subseq out (accumulated scrape cfg) \<and>
         url ` set out = url ` set (accumulated scrape cfg) \<and>
         (\<forall>j\<in>set (accumulated scrape cfg).
            length (filter (\<lambda>x. url x = url j) out) = 1 \<and>
            find (\<lambda>x. url x = url j) out = find (\<lambda>x. url x = url j) (accumulated scrape cfg)) \<and>
         accumulated scrape cfg =
           concat (map (\<lambda>t. map scored (filter (\<lambda>j. 1/5 \<le> raw_score j)
                                         (fst (scrape t (Some (sites cfg))))))
                       (search_terms cfg)) \<and>
         fst (scrape_development_sites w t (Some ss)) =
           concat (map (\<lambda>s. fst (scrape_site w t s)) ss) \<and>
         fst (scrape_development_sites2 w t (Some ss)) =
           concat (map (\<lambda>s. fst (scrape_site2 w t s)) ss)"
proof -
  let ?acc = "accumulated scrape cfg"
  have out: "out = unique_loop ?acc {} []"
    using assms by (rule main_body_out)
  have d: "distinct (map url out)"
    unfolding out by (rule unique_loop_distinct)
  have s: "subseq out ?acc"
    unfolding out by (rule unique_loop_subseq)
  have u: "url ` set out = url ` set ?acc"
    unfolding out by (simp add: unique_loop_urls)
  have f: "find (\<lambda>x. url x = v) out = find (\<lambda>x. url x = v) ?acc" for v
    unfolding out by (simp add: unique_loop_find)
  have c: "length (filter (\<lambda>x. url x = url j) out) = 1" if "j \<in> set ?acc" for j
  proof -
    from that u obtain k where k: "k \<in> set out" "url k = url j"
      by (metis imageE imageI)
    from distinct_count_one[OF d k(1)] show ?thesis
      by (simp add: k(2))
  qed
  from d s u f c show ?thesis
    by (simp add: accumulated_eq[of scrape cfg] scrape_development_sites_eq
        scrape_development_sites2_eq)
qed

theorem dedup_keeps_first_witness:
  "fst (main_body (scrape_development_sites two_postings_world) example_config) =
     Inr [who_posting ''public health''] \<and>
   accumulated (scrape_development_sites two_postings_world) example_config =
     [who_posting ''public health'', who_posting ''health data''] \<and>
   url (who_posting ''health data'') = url (who_posting ''public health'') \<and>
   length (filter (\<lambda>x. url x = url (who_posting ''health data'')) [who_posting ''public health'']) = 1 \<and>
   find (\<lambda>x. url x = url (who_posting ''health data'')) [who_posting ''public health''] =
     Some (who_posting ''public health'')"
proof -
  have run: "fst (main_body (scrape_development_sites two_postings_world) example_config) =
      Inr [who_posting ''public health'']"
    using example_run by (simp add: main_def)
  have mem: "who_posting ''health data'' \<in>
      set (accumulated (scrape_development_sites two_postings_world) example_config)"
    by (simp add: example_accumulated)
  from dedup_keeps_first[OF run] mem
  have "length (filter (\<lambda>x. url x = url (who_posting ''health data'')) [who_posting ''public health'']) = 1 \<and>
        find (\<lambda>x. url x = url (who_posting ''health data'')) [who_posting ''public health''] =
        find (\<lambda>x. url x = url (who_posting ''health data''))
          (accumulated (scrape_development_sites two_postings_world) example_config)"
    by blast
  then show ?thesis
    using run by (simp add: example_accumulated who_posting_def)
qed

text \<open>
  Claim C1, as the code has it. The list a run returns is filtered by relevance: \<open>main\<close>
  accumulates the list that \<open>filter_public_health_jobs\<close> returns, so every returned record
  has the flag \<open>is_public_health\<close> true and a stored \<open>relevance_score\<close>, the rounded
  quotient, of at least 0.2. The returned records are scored copies of scraped records whose
  quotient is at least 0.2, and every url of such a scraped record is the url of a returned
  record.
\<close>

theorem output_relevance_filtered:
  assumes "fst (main_body scrape cfg) = Inr out"
  shows "(\<forall>j\<in>set out.
            relevance_score j = Some (py_round2 (raw_score j)) \<and>
            is_public_health j = Some True \<and>
            1/5 \<le> raw_score j \<and> 1/5 \<le> py_round2 (raw_score j)) \<and>
         set out \<subseteq>
           scored ` {j. (\<exists>t\<in>set (search_terms cfg). j \<in> set (fst (scrape t (Some (sites cfg))))) \<and>
                        1/5 \<le> raw_score j} \<and>
         url ` set out =
           url ` {j. (\<exists>t\<in>set (search_terms cfg). j \<in> set (fst (scrape t (Some (sites cfg))))) \<and>
                     1/5 \<le> raw_score j}"
proof -
  let ?S = "{j. (\<exists>t\<in>set (search_terms cfg). j \<in> set (fst (scrape t (Some (sites cfg))))) \<and>
               1/5 \<le> raw_score j}"
  let ?acc = "accumulated scrape cfg"
  have out: "out = unique_loop ?acc {} []"
    using assms by (rule main_body_out)
  have acc: "set ?acc = scored ` ?S"
    by (auto simp: accumulated_eq[of scrape cfg])
  have "x \<in> set ?acc" if "x \<in> set out" for x
    using list_emb_set[OF unique_loop_subseq[of ?acc "{}"], of x] that
    unfolding out by blast
  then have sub: "set out \<subseteq> scored ` ?S"
    unfolding acc[symmetric] by blast
  have "url ` set out = url ` set ?acc"
    unfolding out by (simp add: unique_loop_urls)
  also have "\<dots> = url ` ?S"
    unfolding acc by (simp add: image_image url_scored)
  finally have urls: "url ` set out = url ` ?S" .
  have each: "relevance_score j = Some (py_round2 (raw_score j)) \<and>
            is_public_health j = Some True \<and>
            1/5 \<le> raw_score j \<and> 1/5 \<le> py_round2 (raw_score j)" if "j \<in> set out" for j
  proof -
    from that sub obtain j0 where j0: "j = scored j0" "1/5 \<le> raw_score j0"
      by blast
    have r: "raw_score j = raw_score j0"
      by (simp add: j0(1) raw_score_scored)
    have "relevance_score j = Some (py_round2 (raw_score j0))"
      and "is_public_health j = Some True"
      using j0(2) by (simp_all add: j0(1) scored_def)
    then show ?thesis
      using j0(2) score_bounds[of j0] by (simp add: r)
  qed
  from each sub urls show ?thesis by blast
qed

theorem output_relevance_filtered_witness:
  "fst (main_body (scrape_development_sites two_postings_world) example_config) =
     Inr [who_posting ''public health''] \<and>
   relevance_score (who_posting ''public health'') =
     Some (py_round2 (raw_score (who_posting ''public health''))) \<and>
   is_public_health (who_posting ''public health'') = Some True \<and>
   1/5 \<le> raw_score (who_posting ''public health'')"
proof -
  have run: "fst (main_body (scrape_development_sites two_postings_world) example_config) =
      Inr [who_posting ''public health'']"
    using example_run by (simp add: main_def)
  have mem: "who_posting ''public health'' \<in> set [who_posting ''public health'']"
    by simp
  from output_relevance_filtered[OF run] mem run show ?thesis
    by blast
qed

text \<open>
  Claim C1 as stated fails: the driver's posting of \<open>two_postings_world\<close> is scraped for
  both search terms, with the quotient 0 and a url that no other posting has, and it is not in
  the list the run returns, which holds the other posting only.
\<close>

theorem unfiltered_output_counterexample:
  "map url (fst (scrape_development_sites two_postings_world ''public health''
                   (Some [''reliefweb'']))) =
     [''https://reliefweb.int/job/1'', ''https://reliefweb.int/job/2''] \<and>
   map raw_score (fst (scrape_development_sites two_postings_world ''public health''
                   (Some [''reliefweb'']))) = [0, 6/23] \<and>
   map url (fst (scrape_development_sites two_postings_world ''health data''
                   (Some [''reliefweb'']))) =
     [''https://reliefweb.int/job/1'', ''https://reliefweb.int/job/2''] \<and>
   fst (main two_postings_world example_config) = Inr [who_posting ''public health''] \<and>
   url (who_posting ''public health'') = ''https://reliefweb.int/job/2''"
  by code_simp


end
